theory Spec2Isabelle
  imports Main "HOL-Library.Word"
begin

section \<open>iolib: a binary stream writer\<close>

text \<open>
  A shallow embedding of \<^verbatim>\<open>src/iolib.py\<close>. The module defines one class,
  \<^verbatim>\<open>BinaryStreamWriter\<close>, whose methods encode a value (with \<^verbatim>\<open>struct.pack\<close> or
  \<^verbatim>\<open>str.encode\<close>) and hand the bytes to a binary file object. The class is a record,
  every method is a function from the writer to an error or to the returned value and the
  updated writer, and the three library facilities the methods call (the file object,
  \<^verbatim>\<open>struct.pack\<close>, \<^verbatim>\<open>str.encode\<close>) are modelled below as far as the writer can
  reach them.
\<close>

subsection \<open>Values\<close>

type_synonym byte = "8 word"

text \<open>
  A Python \<^verbatim>\<open>str\<close> is a sequence of Unicode code points; an Isabelle \<^typ>\<open>char\<close> has
  eight bits only, so text is a list of code points here.
\<close>

type_synonym pystr = "nat list"

text \<open>The exceptions the methods can raise.\<close>

datatype error =
    StructError          \<comment> \<open>\<^verbatim>\<open>struct.error\<close>: value out of range for the format, bad format\<close>
  | UnicodeEncodeError   \<comment> \<open>\<^verbatim>\<open>str.encode\<close> met a code point the codec cannot encode\<close>
  | ValueError           \<comment> \<open>I/O operation on a closed file, unsupported \<^verbatim>\<open>whence\<close>, offset too wide\<close>
  | OverflowError        \<comment> \<open>a \<^verbatim>\<open>whence\<close> that does not fit a C \<^verbatim>\<open>int\<close>\<close>
  | AttributeError       \<comment> \<open>a method called on \<^verbatim>\<open>None\<close>: the writer was never opened\<close>
  | OSError              \<comment> \<open>the operating system refused the request (a seek position it does not allow)\<close>

subsection \<open>Module constants\<close>

definition LITTLE_ENDIAN :: int where "LITTLE_ENDIAN = 0"
definition BIG_ENDIAN :: int where "BIG_ENDIAN = 1"
definition SEEK_BEGINNING :: int where "SEEK_BEGINNING = 0"
definition SEEK_CURRENT :: int where "SEEK_CURRENT = 1"
definition SEEK_END :: int where "SEEK_END = 2"

subsection \<open>The file object\<close>

text \<open>
  The object returned by \<^verbatim>\<open>open(path, "wb")\<close>: the bytes of the file, the write cursor
  and the closed flag. Writing replaces the bytes under the cursor and extends the file;
  a gap left by a seek past the end reads as zero bytes once something is written behind
  it. A closed file refuses a write with \<^verbatim>\<open>ValueError\<close>. Failures of the
  operating system that depend on the machine (a full disk, a broken pipe) are not part
  of the model: an open file accepts every write.
\<close>

record fileobj =
  contents :: "byte list"
  pos :: nat
  closed :: bool

definition file_write :: "fileobj \<Rightarrow> byte list \<Rightarrow> error + (nat \<times> fileobj)" where
  "file_write f b =
     (if closed f then Inl ValueError
      else if b = [] then Inr (0, f)
      else
        let padded = contents f @ replicate (pos f - length (contents f)) 0
        in Inr (length b,
                f\<lparr>contents := take (pos f) padded @ b @ drop (pos f + length b) padded,
                  pos := pos f + length b\<rparr>))"

text \<open>
  \<^verbatim>\<open>seek(offset, whence)\<close> of the file object makes its checks in this order. The
  \<^verbatim>\<open>whence\<close> is converted to a C \<^verbatim>\<open>int\<close> of 32 bits, and a Python integer that does
  not fit raises \<^verbatim>\<open>OverflowError\<close>. A \<^verbatim>\<open>whence\<close> other than 0 to 4 raises
  \<^verbatim>\<open>ValueError\<close>. A closed file raises \<^verbatim>\<open>ValueError\<close>. The offset is converted to
  the 64 bits of \<^verbatim>\<open>off_t\<close>, and one that does not fit raises \<^verbatim>\<open>ValueError\<close>. Then the
  operating system moves the cursor: from the start of the file (0), from the cursor (1)
  or from the end (2), and it refuses with \<^verbatim>\<open>OSError\<close> a position that is negative,
  that does not fit the 64 bits of \<^verbatim>\<open>off_t\<close>, or that lies beyond the greatest offset
  the file system allows. With 3 and 4 the file object asks
  for the next data or the next hole of a sparse file, which depends on how the file
  system laid the file out. The greatest offset and the answer for 3 and 4 are parameters.
\<close>

record filesystem =
  max_offset :: nat
  seek_sparse :: "fileobj \<Rightarrow> int \<Rightarrow> int \<Rightarrow> error + nat"

definition file_seek :: "filesystem \<Rightarrow> fileobj \<Rightarrow> int \<Rightarrow> int \<Rightarrow> error + (nat \<times> fileobj)" where
  "file_seek fs f offset whence =
     (if whence < - (2 ^ 31) \<or> 2 ^ 31 \<le> whence then Inl OverflowError
      else if whence < 0 \<or> 4 < whence then Inl ValueError
      else if closed f then Inl ValueError
      else if offset < - (2 ^ 63) \<or> 2 ^ 63 \<le> offset then Inl ValueError
      else if 2 < whence then
        (case seek_sparse fs f offset whence of
           Inl e \<Rightarrow> Inl e
         | Inr p \<Rightarrow> Inr (p, f\<lparr>pos := p\<rparr>))
      else
        let target = (if whence = 0 then offset
                      else if whence = 1 then int (pos f) + offset
                      else int (length (contents f)) + offset)
        in if target < 0 \<or> int (max_offset fs) < target \<or> 2 ^ 63 \<le> target then Inl OSError
           else Inr (nat target, f\<lparr>pos := nat target\<rparr>))"

definition file_close :: "fileobj \<Rightarrow> fileobj" where
  "file_close f = f\<lparr>closed := True\<rparr>"

subsection \<open>\<^verbatim>\<open>struct.pack\<close> with one integer item\<close>

text \<open>
  The writer builds its formats as \<^verbatim>\<open>"{}b".format(self.__endian)\<close>: a byte-order
  character followed by one integer code. \<^verbatim>\<open>pack\<close> reads the first character as the
  mode: \<^verbatim>\<open><\<close> is little-endian and \<^verbatim>\<open>></\<close> and \<^verbatim>\<open>!\<close> are big-endian, all with the
  standard sizes; \<^verbatim>\<open>=\<close> is the machine's byte order with the standard sizes;
  \<^verbatim>\<open>@\<close>, or no mode character at all, is the machine's byte order with the machine's
  sizes, where a C \<^verbatim>\<open>long\<close> has four or eight bytes. The machine is a parameter.
  Formats of any other shape cannot be built by the writer and are rejected here.
\<close>

record platform =
  native_long_size :: nat
  native_little :: bool

text \<open>The size in bytes of an integer code, given the size of \<^verbatim>\<open>long\<close>.\<close>

definition code_size :: "nat \<Rightarrow> char \<Rightarrow> nat option" where
  "code_size long_size c =
     (if c = CHR ''b'' \<or> c = CHR ''B'' then Some 1
      else if c = CHR ''h'' \<or> c = CHR ''H'' then Some 2
      else if c = CHR ''i'' \<or> c = CHR ''I'' then Some 4
      else if c = CHR ''l'' \<or> c = CHR ''L'' then Some long_size
      else None)"

definition code_signed :: "char \<Rightarrow> bool" where
  "code_signed c = (c = CHR ''b'' \<or> c = CHR ''h'' \<or> c = CHR ''i'' \<or> c = CHR ''l'')"

text \<open>
  The bytes of an integer, least significant first: store the low byte, shift right by
  eight, as the packing loop of the library does. On a negative number \<open>div\<close> rounds
  down like Python's \<^verbatim>\<open>>>\<close>, which gives the two's complement pattern.
\<close>

fun int_to_bytes_le :: "nat \<Rightarrow> int \<Rightarrow> byte list" where
  "int_to_bytes_le 0 x = []"
| "int_to_bytes_le (Suc k) x = word_of_int x # int_to_bytes_le k (x div 256)"

definition pack_int :: "bool \<Rightarrow> nat \<Rightarrow> bool \<Rightarrow> int \<Rightarrow> error + byte list" where
  "pack_int little width is_signed n =
     (let lo = (if is_signed then - (2 ^ (8 * width - 1)) else 0);
          hi = (if is_signed then 2 ^ (8 * width - 1) else 2 ^ (8 * width))
      in if lo \<le> n \<and> n < hi
         then Inr (if little then int_to_bytes_le width n else rev (int_to_bytes_le width n))
         else Inl StructError)"

definition pack_code :: "bool \<Rightarrow> nat \<Rightarrow> char \<Rightarrow> int \<Rightarrow> error + byte list" where
  "pack_code little long_size c n =
     (case code_size long_size c of
        None \<Rightarrow> Inl StructError
      | Some width \<Rightarrow> pack_int little width (code_signed c) n)"

definition pack :: "platform \<Rightarrow> string \<Rightarrow> int \<Rightarrow> error + byte list" where
  "pack pf fmt n =
     (case fmt of
        [c] \<Rightarrow> pack_code (native_little pf) (native_long_size pf) c n
      | [p, c] \<Rightarrow>
          (if p = CHR ''<'' then pack_code True 4 c n
           else if p = CHR ''>'' \<or> p = CHR ''!'' then pack_code False 4 c n
           else if p = CHR ''='' then pack_code (native_little pf) 4 c n
           else if p = CHR ''@'' then pack_code (native_little pf) (native_long_size pf) c n
           else Inl StructError)
      | _ \<Rightarrow> Inl StructError)"

subsection \<open>\<^verbatim>\<open>str.encode\<close>\<close>

text \<open>
  The ASCII codec gives one byte for each code point below 128 and raises on any other.
  The UTF-8 codec gives one to four bytes for a code point and raises on a surrogate
  (\<open>0xD800\<close> to \<open>0xDFFF\<close>), which a Python string may hold. A Python string holds no
  code point above \<open>0x10FFFF\<close>; the model rejects one.
\<close>

fun encode_ascii :: "pystr \<Rightarrow> error + byte list" where
  "encode_ascii [] = Inr []"
| "encode_ascii (c # cs) =
     (if c < 128
      then (case encode_ascii cs of Inl e \<Rightarrow> Inl e | Inr bs \<Rightarrow> Inr (of_nat c # bs))
      else Inl UnicodeEncodeError)"

definition utf8_char :: "nat \<Rightarrow> error + byte list" where
  "utf8_char c =
     (if c < 0x80 then Inr [of_nat c]
      else if c < 0x800 then Inr [of_nat (0xC0 + c div 0x40), of_nat (0x80 + c mod 0x40)]
      else if 0xD800 \<le> c \<and> c < 0xE000 then Inl UnicodeEncodeError
      else if c < 0x10000 then
        Inr [of_nat (0xE0 + c div 0x1000), of_nat (0x80 + c div 0x40 mod 0x40),
             of_nat (0x80 + c mod 0x40)]
      else if c < 0x110000 then
        Inr [of_nat (0xF0 + c div 0x40000), of_nat (0x80 + c div 0x1000 mod 0x40),
             of_nat (0x80 + c div 0x40 mod 0x40), of_nat (0x80 + c mod 0x40)]
      else Inl UnicodeEncodeError)"

fun encode_utf8 :: "pystr \<Rightarrow> error + byte list" where
  "encode_utf8 [] = Inr []"
| "encode_utf8 (c # cs) =
     (case utf8_char c of
        Inl e \<Rightarrow> Inl e
      | Inr b \<Rightarrow> (case encode_utf8 cs of Inl e \<Rightarrow> Inl e | Inr bs \<Rightarrow> Inr (b @ bs)))"

subsection \<open>The writer\<close>

text \<open>
  The three private attributes of \<^verbatim>\<open>BinaryStreamWriter\<close>. \<^verbatim>\<open>__fp\<close> is \<^verbatim>\<open>None\<close>
  until \<^verbatim>\<open>open\<close> stores a file object in it.
\<close>

record writer =
  output_path :: pystr
  fp :: "fileobj option"
  endian :: string

text \<open>
  \<^verbatim>\<open>__init__\<close>. The byte-order argument is compared with \<^verbatim>\<open>LITTLE_ENDIAN\<close> and
  nothing else is asked of it; it is a Python integer here, and a call that omits it is
  \<open>init path LITTLE_ENDIAN\<close>.
\<close>

definition init :: "pystr \<Rightarrow> int \<Rightarrow> writer" where
  "init path e =
     \<lparr>output_path = path, fp = None,
      endian = (if e = LITTLE_ENDIAN then ''<'' else ''>'')\<rparr>"

text \<open>\<^verbatim>\<open>self.__fp.write(buf)\<close>, \<^verbatim>\<open>self.__fp.seek(offset, whence)\<close>: on \<^verbatim>\<open>None\<close>
  the attribute lookup raises.\<close>

definition fp_write :: "writer \<Rightarrow> byte list \<Rightarrow> error + (nat \<times> writer)" where
  "fp_write self buf =
     (case fp self of
        None \<Rightarrow> Inl AttributeError
      | Some f \<Rightarrow>
          (case file_write f buf of
             Inl e \<Rightarrow> Inl e
           | Inr (k, f') \<Rightarrow> Inr (k, self\<lparr>fp := Some f'\<rparr>)))"

definition fp_seek :: "filesystem \<Rightarrow> writer \<Rightarrow> int \<Rightarrow> int \<Rightarrow> error + (nat \<times> writer)" where
  "fp_seek fs self offset whence =
     (case fp self of
        None \<Rightarrow> Inl AttributeError
      | Some f \<Rightarrow>
          (case file_seek fs f offset whence of
             Inl e \<Rightarrow> Inl e
           | Inr (p, f') \<Rightarrow> Inr (p, self\<lparr>fp := Some f'\<rparr>)))"

text \<open>The pattern of the eight numeric methods: pack, then write the buffer.\<close>

definition write_packed :: "platform \<Rightarrow> writer \<Rightarrow> char \<Rightarrow> int \<Rightarrow> error + (nat \<times> writer)" where
  "write_packed pf self c n =
     (case pack pf (endian self @ [c]) n of
        Inl e \<Rightarrow> Inl e
      | Inr buf \<Rightarrow> fp_write self buf)"

definition write_byte :: "platform \<Rightarrow> writer \<Rightarrow> int \<Rightarrow> error + (nat \<times> writer)" where
  "write_byte pf self n = write_packed pf self (CHR ''b'') n"

definition write_ubyte :: "platform \<Rightarrow> writer \<Rightarrow> int \<Rightarrow> error + (nat \<times> writer)" where
  "write_ubyte pf self n = write_packed pf self (CHR ''B'') n"

definition write_short :: "platform \<Rightarrow> writer \<Rightarrow> int \<Rightarrow> error + (nat \<times> writer)" where
  "write_short pf self n = write_packed pf self (CHR ''h'') n"

definition write_ushort :: "platform \<Rightarrow> writer \<Rightarrow> int \<Rightarrow> error + (nat \<times> writer)" where
  "write_ushort pf self n = write_packed pf self (CHR ''H'') n"

definition write_int :: "platform \<Rightarrow> writer \<Rightarrow> int \<Rightarrow> error + (nat \<times> writer)" where
  "write_int pf self n = write_packed pf self (CHR ''i'') n"

definition write_uint :: "platform \<Rightarrow> writer \<Rightarrow> int \<Rightarrow> error + (nat \<times> writer)" where
  "write_uint pf self n = write_packed pf self (CHR ''I'') n"

definition write_long :: "platform \<Rightarrow> writer \<Rightarrow> int \<Rightarrow> error + (nat \<times> writer)" where
  "write_long pf self n = write_packed pf self (CHR ''l'') n"

definition write_ulong :: "platform \<Rightarrow> writer \<Rightarrow> int \<Rightarrow> error + (nat \<times> writer)" where
  "write_ulong pf self n = write_packed pf self (CHR ''L'') n"

text \<open>
  The four string methods are one expression, \<^verbatim>\<open>self.__fp.write(s.encode(...))\<close>.
  Python looks the method \<^verbatim>\<open>write\<close> up on the handle first, then evaluates the
  argument, then calls: a writer that was never opened raises \<^verbatim>\<open>AttributeError\<close>
  whatever the string, and a writer with a handle raises the codec's error before the file
  is touched. The numeric methods pack in a statement of their own, before the handle is
  looked at.
\<close>

definition write_ascii_string :: "writer \<Rightarrow> pystr \<Rightarrow> error + (nat \<times> writer)" where
  "write_ascii_string self s =
     (case fp self of
        None \<Rightarrow> Inl AttributeError
      | Some f \<Rightarrow>
          (case encode_ascii s of Inl e \<Rightarrow> Inl e | Inr b \<Rightarrow> fp_write self b))"

definition write_ascii_nt_string :: "writer \<Rightarrow> pystr \<Rightarrow> error + (nat \<times> writer)" where
  "write_ascii_nt_string self s =
     (case fp self of
        None \<Rightarrow> Inl AttributeError
      | Some f \<Rightarrow>
          (case encode_ascii s of
             Inl e \<Rightarrow> Inl e
           | Inr b \<Rightarrow> fp_write self (b @ replicate 1 0)))"

definition write_utf8_string :: "writer \<Rightarrow> pystr \<Rightarrow> error + (nat \<times> writer)" where
  "write_utf8_string self s =
     (case fp self of
        None \<Rightarrow> Inl AttributeError
      | Some f \<Rightarrow>
          (case encode_utf8 s of Inl e \<Rightarrow> Inl e | Inr b \<Rightarrow> fp_write self b))"

definition write_utf8_nt_string :: "writer \<Rightarrow> pystr \<Rightarrow> error + (nat \<times> writer)" where
  "write_utf8_nt_string self s =
     (case fp self of
        None \<Rightarrow> Inl AttributeError
      | Some f \<Rightarrow>
          (case encode_utf8 s of
             Inl e \<Rightarrow> Inl e
           | Inr b \<Rightarrow> fp_write self (b @ replicate 1 0)))"

text \<open>The method \<^verbatim>\<open>write\<close>; the bare name is reserved in Isabelle.\<close>

definition write_raw :: "writer \<Rightarrow> byte list \<Rightarrow> error + (nat \<times> writer)" where
  "write_raw self b = fp_write self b"

text \<open>
  \<^verbatim>\<open>open\<close> creates or truncates the file and stores a fresh file object. The operating
  system can refuse the path (the empty path, a directory that does not exist); the
  function is the opening that it grants.
\<close>

definition open_stream :: "writer \<Rightarrow> writer" where
  "open_stream self = self\<lparr>fp := Some \<lparr>contents = [], pos = 0, closed = False\<rparr>\<rparr>"

text \<open>\<^verbatim>\<open>close\<close> closes the file object; the attribute keeps referring to it.\<close>

definition close :: "writer \<Rightarrow> error + writer" where
  "close self =
     (case fp self of
        None \<Rightarrow> Inl AttributeError
      | Some f \<Rightarrow> Inr (self\<lparr>fp := Some (file_close f)\<rparr>))"

text \<open>A call of \<^verbatim>\<open>seek\<close> that omits \<^verbatim>\<open>whence\<close> is \<open>seek fs self offset SEEK_BEGINNING\<close>.\<close>

definition seek :: "filesystem \<Rightarrow> writer \<Rightarrow> int \<Rightarrow> int \<Rightarrow> error + (nat \<times> writer)" where
  "seek fs self offset whence = fp_seek fs self offset whence"

definition skip :: "filesystem \<Rightarrow> writer \<Rightarrow> int \<Rightarrow> error + (nat \<times> writer)" where
  "skip fs self count = fp_seek fs self count SEEK_CURRENT"

subsection \<open>Observing a call\<close>

text \<open>
  What a call put into the file: the bytes that lie, after the call, between the cursor
  the file had before the call and that cursor plus the returned count. A call that
  raised wrote nothing that can be observed.
\<close>

definition bytes_at :: "fileobj \<Rightarrow> nat \<Rightarrow> nat \<Rightarrow> byte list" where
  "bytes_at f p k = take k (drop p (contents f))"

definition written :: "fileobj \<Rightarrow> error + (nat \<times> writer) \<Rightarrow> byte list option" where
  "written f r =
     (case r of
        Inl e \<Rightarrow> None
      | Inr (k, w') \<Rightarrow>
          (case fp w' of None \<Rightarrow> None | Some f' \<Rightarrow> Some (bytes_at f' (pos f) k)))"

text \<open>The value a call returned: the count of bytes, or nothing when it raised.\<close>

definition returned :: "error + (nat \<times> writer) \<Rightarrow> nat option" where
  "returned r = (case r of Inl e \<Rightarrow> None | Inr (k, w') \<Rightarrow> Some k)"

text \<open>The error of a call, or its returned value and the file it leaves.\<close>

definition outcome :: "error + (nat \<times> writer) \<Rightarrow> error + (nat \<times> fileobj option)" where
  "outcome r = (case r of Inl e \<Rightarrow> Inl e | Inr (k, w') \<Rightarrow> Inr (k, fp w'))"

subsection \<open>An independent decoder\<close>

text \<open>
  The module has no reader. To state that the written bytes carry the value, the bytes
  are decoded the way \<^verbatim>\<open>struct.unpack\<close> does it: the bytes are the digits of a number
  in base 256, least significant first in little-endian order, and a signed format reads
  a set top bit as two's complement.
\<close>

fun bytes_le_to_int :: "byte list \<Rightarrow> int" where
  "bytes_le_to_int [] = 0"
| "bytes_le_to_int (b # bs) = uint b + 256 * bytes_le_to_int bs"

definition decode_int :: "bool \<Rightarrow> bool \<Rightarrow> byte list \<Rightarrow> int" where
  "decode_int little is_signed bs =
     (let u = bytes_le_to_int (if little then bs else rev bs)
      in if is_signed \<and> 2 ^ (8 * length bs - 1) \<le> u then u - 2 ^ (8 * length bs) else u)"

subsection \<open>An independent UTF-8 decoder\<close>



subsection \<open>A test string\<close>

text \<open>The four code points of \<^verbatim>\<open>caf\<close> followed by U+00E9, e with acute accent.\<close>

definition cafe :: pystr where
  "cafe = [0x63, 0x61, 0x66, 0xE9]"

section \<open>Properties\<close>

subsection \<open>Packing and decoding\<close>

lemma length_int_to_bytes_le: "length (int_to_bytes_le k x) = k"
  by (induction k arbitrary: x) simp_all

lemma bytes_le_to_int_inverse: "bytes_le_to_int (int_to_bytes_le k x) = x mod 2 ^ (8 * k)"
proof (induction k arbitrary: x)
  case 0
  show ?case by simp
next
  case (Suc k)
  have "uint (word_of_int x :: byte) = x mod 256"
    by (simp add: uint_word_of_int)
  moreover have "x mod (256 * 2 ^ (8 * k)) = 256 * (x div 256 mod 2 ^ (8 * k)) + x mod 256"
    by (rule zmod_zmult2_eq) simp
  moreover have "(2::int) ^ (8 * Suc k) = 256 * 2 ^ (8 * k)"
    by (simp add: power_add)
  ultimately show ?case
    using Suc.IH [of "x div 256"] by simp
qed

lemma pack_int_length: "pack_int little k sg n = Inr bs \<Longrightarrow> length bs = k"
  by (auto simp: pack_int_def Let_def length_int_to_bytes_le split: if_splits)

lemma pack_int_in_range:
  assumes "(if sg then - (2 ^ (8 * k - 1)) else 0) \<le> n"
    and "n < (if sg then 2 ^ (8 * k - 1) else 2 ^ (8 * k))"
  shows "\<exists>bs. pack_int little k sg n = Inr bs"
  using assms by (simp add: pack_int_def Let_def)

text \<open>Whatever \<open>pack_int\<close> accepts, the decoder reads back.\<close>

lemma decode_pack_int:
  assumes "pack_int little k sg n = Inr bs" and "0 < k"
  shows "decode_int little sg bs = n"
proof -
  define m :: int where "m = 2 ^ (8 * k - 1)"
  have two: "(2::int) ^ (8 * k) = 2 * m"
    using \<open>0 < k\<close> unfolding m_def by (metis Suc_pred' mult_pos_pos power_Suc zero_less_numeral)
  have mpos: "0 < m" by (simp add: m_def)
  from assms(1) have rng: "(if sg then - m else 0) \<le> n" "n < (if sg then m else 2 * m)"
    and bs: "bs = (if little then int_to_bytes_le k n else rev (int_to_bytes_le k n))"
    by (auto simp: pack_int_def Let_def m_def two split: if_splits)
  have len: "length bs = k" by (simp add: bs length_int_to_bytes_le)
  have u: "bytes_le_to_int (if little then bs else rev bs) = n mod (2 * m)"
    by (simp add: bs bytes_le_to_int_inverse two)
  have dec: "decode_int little sg bs =
      (let v = n mod (2 * m) in if sg \<and> m \<le> v then v - 2 * m else v)"
    unfolding decode_int_def u len two m_def [symmetric] ..
  show ?thesis
  proof (cases "n < 0")
    case True
    with rng have sg: sg and lo: "- m \<le> n" by (auto split: if_splits)
    have "n mod (2 * m) = (n + 2 * m) mod (2 * m)" by simp
    also have "\<dots> = n + 2 * m" using lo True mpos by (intro mod_pos_pos_trivial) auto
    finally have "n mod (2 * m) = n + 2 * m" .
    then show ?thesis unfolding dec Let_def using sg lo True
      by simp
  next
    case False
    then have "n mod (2 * m) = n" using rng by (intro mod_pos_pos_trivial) (auto split: if_splits)
    then show ?thesis unfolding dec Let_def using rng False
      by (auto split: if_splits)
  qed
qed

text \<open>The format of a writer made by \<open>init\<close> always selects a standard-size mode.\<close>

lemma pack_init: "pack pf (endian (init path e) @ [c]) n = pack_code (e = LITTLE_ENDIAN) 4 c n"
  by (simp add: init_def pack_def)

subsection \<open>Writing to the file\<close>

lemma file_write_count: "file_write f b = Inr (k, f') \<Longrightarrow> k = length b"
  by (auto simp: file_write_def Let_def split: if_splits)

lemma fp_write_count: "fp_write w b = Inr (k, w') \<Longrightarrow> k = length b"
  by (auto simp: fp_write_def split: option.splits sum.splits dest: file_write_count)

lemma file_write_bytes:
  assumes "\<not> closed f"
  shows "\<exists>f'. file_write f b = Inr (length b, f') \<and> bytes_at f' (pos f) (length b) = b
           \<and> pos f' = pos f + length b \<and> \<not> closed f'"
proof (cases "b = []")
  case True
  with assms show ?thesis by (simp add: file_write_def bytes_at_def)
next
  case False
  define padded where "padded = contents f @ replicate (pos f - length (contents f)) 0"
  have "pos f \<le> length padded" by (simp add: padded_def)
  then have "take (length b) (drop (pos f) (take (pos f) padded @ b @ drop (pos f + length b) padded)) = b"
    by simp
  with assms False show ?thesis
    by (simp add: file_write_def bytes_at_def Let_def padded_def)
qed

lemma written_fp_write:
  assumes "fp w = Some f" and "\<not> closed f"
  shows "written f (fp_write w b) = Some b"
proof -
  from file_write_bytes [OF assms(2), of b] obtain f'
    where "file_write f b = Inr (length b, f')" and "bytes_at f' (pos f) (length b) = b"
    by blast
  with assms(1) show ?thesis by (simp add: written_def fp_write_def)
qed

lemma write_packed_init:
  assumes "code_size 4 c = Some k"
  shows "write_packed pf ((init path e)\<lparr>fp := fo\<rparr>) c n =
           (case pack_int (e = LITTLE_ENDIAN) k (code_signed c) n of
              Inl x \<Rightarrow> Inl x
            | Inr buf \<Rightarrow> fp_write ((init path e)\<lparr>fp := fo\<rparr>) buf)"
  using assms by (simp add: write_packed_def pack_init pack_code_def)

lemma roundtrip_packed:
  assumes "code_size 4 c = Some k" and "0 < k" and "\<not> closed f"
    and "(if code_signed c then - (2 ^ (8 * k - 1)) else 0) \<le> n"
    and "n < (if code_signed c then 2 ^ (8 * k - 1) else 2 ^ (8 * k))"
  shows "map_option (decode_int (e = LITTLE_ENDIAN) (code_signed c))
           (written f (write_packed pf ((init path e)\<lparr>fp := Some f\<rparr>) c n)) = Some n"
proof -
  from pack_int_in_range [OF assms(4,5)] obtain bs
    where bs: "pack_int (e = LITTLE_ENDIAN) k (code_signed c) n = Inr bs" by blast
  have "written f (write_packed pf ((init path e)\<lparr>fp := Some f\<rparr>) c n) = Some bs"
    by (simp add: write_packed_init [OF assms(1)] bs written_fp_write assms(3))
  then show ?thesis using decode_pack_int [OF bs assms(2)] by simp
qed

text \<open>The count a file write returns is the length of the buffer.\<close>

lemma returned_fp_write: "returned (fp_write w b) = Some k \<Longrightarrow> k = length b"
  by (auto simp: returned_def split: sum.splits dest: fp_write_count)

lemma returned_fp_write_open:
  assumes "fp w = Some f" and "\<not> closed f"
  shows "returned (fp_write w b) = Some (length b)"
proof -
  from file_write_bytes [OF assms(2), of b] obtain f'
    where "file_write f b = Inr (length b, f')" by blast
  with assms(1) show ?thesis by (simp add: returned_def fp_write_def)
qed

lemma returned_write_packed:
  assumes "code_size 4 c = Some k"
    and "returned (write_packed pf ((init path e)\<lparr>fp := fo\<rparr>) c n) = Some j"
  shows "j = k"
proof (cases "pack_int (e = LITTLE_ENDIAN) k (code_signed c) n")
  case (Inl x)
  with assms show ?thesis by (simp add: write_packed_init returned_def)
next
  case (Inr buf)
  with assms have "returned (fp_write ((init path e)\<lparr>fp := fo\<rparr>) buf) = Some j"
    by (simp add: write_packed_init)
  then have "j = length buf" by (rule returned_fp_write)
  with Inr show ?thesis by (simp add: pack_int_length)
qed

lemma returned_packed_open:
  assumes "code_size 4 c = Some k" and "\<not> closed f"
    and "pack_int (e = LITTLE_ENDIAN) k (code_signed c) n = Inr bs"
  shows "returned (write_packed pf ((init path e)\<lparr>fp := Some f\<rparr>) c n) = Some k"
    and "written f (write_packed pf ((init path e)\<lparr>fp := Some f\<rparr>) c n) = Some bs"
  using assms
  by (simp_all add: write_packed_init returned_fp_write_open written_fp_write pack_int_length)

text \<open>A closed file refuses the buffer and the seek.\<close>

lemma fp_write_closed: "fp w = Some f \<Longrightarrow> closed f \<Longrightarrow> fp_write w b = Inl ValueError"
  by (simp add: fp_write_def file_write_def)

lemma fp_seek_closed:
  "fp w = Some f \<Longrightarrow> closed f \<Longrightarrow>
   fp_seek fs w offset whence
     = (if whence < - (2 ^ 31) \<or> 2 ^ 31 \<le> whence then Inl OverflowError else Inl ValueError)"
  by (simp add: fp_seek_def file_seek_def)

lemma write_packed_closed:
  assumes "code_size 4 c = Some k" and "closed f"
  shows "write_packed pf ((init path e)\<lparr>fp := Some f\<rparr>) c n
       = (if (if code_signed c then - (2 ^ (8 * k - 1)) else 0) \<le> n
             \<and> n < (if code_signed c then 2 ^ (8 * k - 1) else 2 ^ (8 * k))
          then Inl ValueError else Inl StructError)"
  using assms
  by (simp add: write_packed_init fp_write_closed pack_int_def Let_def)

lemma written_packed_closed:
  "closed f \<Longrightarrow> written f (write_packed pf (w\<lparr>fp := Some f\<rparr>) c n) = None"
  by (simp add: write_packed_def fp_write_def file_write_def written_def split: sum.splits)



lemma outcome_fp_write:
  "fp w1 = fp w2 \<Longrightarrow> outcome (fp_write w1 b) = outcome (fp_write w2 b)"
  by (simp add: outcome_def fp_write_def split: option.splits sum.splits prod.splits)

subsection \<open>Byte order and machine\<close>

lemma pack_int_big: "pack_int False k sg n = map_sum id rev (pack_int True k sg n)"
  by (simp add: pack_int_def Let_def)

lemma written_packed_rev:
  assumes "code_size 4 c = Some k" and "e \<noteq> LITTLE_ENDIAN"
  shows "written f (write_packed pf ((init path e)\<lparr>fp := Some f\<rparr>) c n)
       = map_option rev (written f (write_packed pf ((init path LITTLE_ENDIAN)\<lparr>fp := Some f\<rparr>) c n))"
proof (cases "closed f")
  case True
  then show ?thesis by (simp add: written_packed_closed)
next
  case False
  show ?thesis
  proof (cases "pack_int True k (code_signed c) n")
    case (Inl x)
    with assms show ?thesis
      by (simp add: write_packed_init pack_int_big written_def)
  next
    case (Inr bs)
    with assms False show ?thesis
      by (simp add: write_packed_init pack_int_big written_fp_write)
  qed
qed

lemma outcome_packed_one_byte:
  assumes "code_size 4 c = Some 1"
  shows "outcome (write_packed pf ((init path e1)\<lparr>fp := fo\<rparr>) c n)
       = outcome (write_packed pf ((init path e2)\<lparr>fp := fo\<rparr>) c n)"
proof -
  have same: "pack_int (e1 = LITTLE_ENDIAN) 1 (code_signed c) n
      = pack_int (e2 = LITTLE_ENDIAN) 1 (code_signed c) n"
    by (simp add: pack_int_def Let_def)
  have "outcome (fp_write ((init path e1)\<lparr>fp := fo\<rparr>) buf)
      = outcome (fp_write ((init path e2)\<lparr>fp := fo\<rparr>) buf)" for buf
    by (rule outcome_fp_write) simp
  then show ?thesis
    unfolding write_packed_init [OF assms] same by (simp split: sum.splits)
qed

lemma write_packed_platform:
  "write_packed pf ((init path e)\<lparr>fp := fo\<rparr>) c n
     = write_packed pf' ((init path e)\<lparr>fp := fo\<rparr>) c n"
  by (simp add: write_packed_def pack_init)

subsection \<open>The ASCII codec\<close>

lemma encode_ascii_eq:
  "encode_ascii s = (if \<forall>c\<in>set s. c < 128 then Inr (map of_nat s) else Inl UnicodeEncodeError)"
  by (induction s) auto

text \<open>With a handle in place, a string write is the codec followed by the file write.\<close>

lemma string_write_with_handle:
  assumes "fp w = Some f"
  shows "write_ascii_string w s
       = (case encode_ascii s of Inl e \<Rightarrow> Inl e | Inr b \<Rightarrow> fp_write w b)"
    and "write_ascii_nt_string w s
       = (case encode_ascii s of Inl e \<Rightarrow> Inl e | Inr b \<Rightarrow> fp_write w (b @ [0]))"
    and "write_utf8_string w s
       = (case encode_utf8 s of Inl e \<Rightarrow> Inl e | Inr b \<Rightarrow> fp_write w b)"
    and "write_utf8_nt_string w s
       = (case encode_utf8 s of Inl e \<Rightarrow> Inl e | Inr b \<Rightarrow> fp_write w (b @ [0]))"
  using assms
  by (simp_all add: write_ascii_string_def write_ascii_nt_string_def write_utf8_string_def
      write_utf8_nt_string_def split: sum.splits)

subsection \<open>Evaluating concrete calls\<close>

lemmas numeric_write_defs =
  write_byte_def write_ubyte_def write_short_def write_ushort_def
  write_int_def write_uint_def write_long_def write_ulong_def

lemma int_to_bytes_le_numeral:
  "int_to_bytes_le (numeral v) x = word_of_int x # int_to_bytes_le (pred_numeral v) (x div 256)"
  by (simp add: numeral_eq_Suc)

lemmas eval_defs =
  numeric_write_defs write_packed_def pack_def pack_code_def code_size_def code_signed_def
  pack_int_def init_def open_stream_def fp_write_def file_write_def
  LITTLE_ENDIAN_def BIG_ENDIAN_def Let_def int_to_bytes_le_numeral
  written_def bytes_at_def returned_def

text \<open>
  The boundary values of the signed byte, and a negative long on a big-endian writer.
\<close>

lemma write_byte_boundaries:
  "written \<lparr>contents = [], pos = 0, closed = False\<rparr>
     (write_byte pf (open_stream (init [0x6F] LITTLE_ENDIAN)) (- 128)) = Some [0x80]
   \<and> written \<lparr>contents = [], pos = 0, closed = False\<rparr>
     (write_byte pf (open_stream (init [0x6F] LITTLE_ENDIAN)) 127) = Some [0x7F]
   \<and> write_byte pf (open_stream (init [0x6F] LITTLE_ENDIAN)) (- 129) = Inl StructError
   \<and> write_byte pf (open_stream (init [0x6F] LITTLE_ENDIAN)) 128 = Inl StructError"
  by (simp add: eval_defs)

lemma write_long_minus_two_big_endian:
  "written \<lparr>contents = [1, 2, 3], pos = 5, closed = False\<rparr>
     (write_long pf ((init [0x6F] BIG_ENDIAN)\<lparr>fp := Some \<lparr>contents = [1, 2, 3], pos = 5, closed = False\<rparr>\<rparr>)
       (- 2)) = Some [0xFF, 0xFF, 0xFF, 0xFE]"
  by (simp add: eval_defs)

text \<open>
  The machine matters to \<open>pack\<close> in native mode only, which the writer never selects:
  there a long has the machine's size. In the writer's modes a value that needs more than
  four bytes is refused whatever the machine.
\<close>

lemma pack_native_long:
  "pack \<lparr>native_long_size = 8, native_little = True\<rparr> ''@l'' 1 = Inr [1, 0, 0, 0, 0, 0, 0, 0]
   \<and> pack \<lparr>native_long_size = 4, native_little = True\<rparr> ''@l'' 1 = Inr [1, 0, 0, 0]
   \<and> pack \<lparr>native_long_size = 8, native_little = True\<rparr> ''<l'' 1 = Inr [1, 0, 0, 0]"
  by (simp add: pack_def pack_code_def code_size_def code_signed_def pack_int_def
      int_to_bytes_le_numeral)

lemma write_long_rejects_wider:
  "write_long \<lparr>native_long_size = 8, native_little = True\<rparr>
     (open_stream (init [0x6F] LITTLE_ENDIAN)) 2147483648 = Inl StructError"
  by (simp add: eval_defs)

subsection \<open>The round trip of the numeric writes\<close>

text \<open>
  Claim C1. On an open writer, for each of the eight numeric writes, for either byte
  order and for every value in the range of the width and signedness (1, 2, 4 bytes and
  the 4 bytes of long), the call succeeds and the bytes it puts into the file, decoded
  with the same width, signedness and byte order, are the value written. The writer is
  any state a constructed writer can be in while its file is open.
\<close>

theorem numeric_write_round_trip:
  assumes "\<not> closed f" and "w = (init path e)\<lparr>fp := Some f\<rparr>"
  shows "(- 128 \<le> n \<and> n \<le> 127 \<longrightarrow>
            map_option (decode_int (e = LITTLE_ENDIAN) True)
              (written f (write_byte pf w n)) = Some n)
       \<and> (0 \<le> n \<and> n \<le> 255 \<longrightarrow>
            map_option (decode_int (e = LITTLE_ENDIAN) False)
              (written f (write_ubyte pf w n)) = Some n)
       \<and> (- 32768 \<le> n \<and> n \<le> 32767 \<longrightarrow>
            map_option (decode_int (e = LITTLE_ENDIAN) True)
              (written f (write_short pf w n)) = Some n)
       \<and> (0 \<le> n \<and> n \<le> 65535 \<longrightarrow>
            map_option (decode_int (e = LITTLE_ENDIAN) False)
              (written f (write_ushort pf w n)) = Some n)
       \<and> (- 2147483648 \<le> n \<and> n \<le> 2147483647 \<longrightarrow>
            map_option (decode_int (e = LITTLE_ENDIAN) True)
              (written f (write_int pf w n)) = Some n)
       \<and> (0 \<le> n \<and> n \<le> 4294967295 \<longrightarrow>
            map_option (decode_int (e = LITTLE_ENDIAN) False)
              (written f (write_uint pf w n)) = Some n)
       \<and> (- 2147483648 \<le> n \<and> n \<le> 2147483647 \<longrightarrow>
            map_option (decode_int (e = LITTLE_ENDIAN) True)
              (written f (write_long pf w n)) = Some n)
       \<and> (0 \<le> n \<and> n \<le> 4294967295 \<longrightarrow>
            map_option (decode_int (e = LITTLE_ENDIAN) False)
              (written f (write_ulong pf w n)) = Some n)"
proof -
  have b: "- 128 \<le> n \<and> n \<le> 127 \<longrightarrow>
      map_option (decode_int (e = LITTLE_ENDIAN) True) (written f (write_byte pf w n)) = Some n"
    using roundtrip_packed [of "CHR ''b''" 1 f n e pf path] assms
    by (simp add: write_byte_def code_size_def code_signed_def)
  have ub: "0 \<le> n \<and> n \<le> 255 \<longrightarrow>
      map_option (decode_int (e = LITTLE_ENDIAN) False) (written f (write_ubyte pf w n)) = Some n"
    using roundtrip_packed [of "CHR ''B''" 1 f n e pf path] assms
    by (simp add: write_ubyte_def code_size_def code_signed_def)
  have s: "- 32768 \<le> n \<and> n \<le> 32767 \<longrightarrow>
      map_option (decode_int (e = LITTLE_ENDIAN) True) (written f (write_short pf w n)) = Some n"
    using roundtrip_packed [of "CHR ''h''" 2 f n e pf path] assms
    by (simp add: write_short_def code_size_def code_signed_def)
  have us: "0 \<le> n \<and> n \<le> 65535 \<longrightarrow>
      map_option (decode_int (e = LITTLE_ENDIAN) False) (written f (write_ushort pf w n)) = Some n"
    using roundtrip_packed [of "CHR ''H''" 2 f n e pf path] assms
    by (simp add: write_ushort_def code_size_def code_signed_def)
  have i: "- 2147483648 \<le> n \<and> n \<le> 2147483647 \<longrightarrow>
      map_option (decode_int (e = LITTLE_ENDIAN) True) (written f (write_int pf w n)) = Some n"
    using roundtrip_packed [of "CHR ''i''" 4 f n e pf path] assms
    by (simp add: write_int_def code_size_def code_signed_def)
  have ui: "0 \<le> n \<and> n \<le> 4294967295 \<longrightarrow>
      map_option (decode_int (e = LITTLE_ENDIAN) False) (written f (write_uint pf w n)) = Some n"
    using roundtrip_packed [of "CHR ''I''" 4 f n e pf path] assms
    by (simp add: write_uint_def code_size_def code_signed_def)
  have l: "- 2147483648 \<le> n \<and> n \<le> 2147483647 \<longrightarrow>
      map_option (decode_int (e = LITTLE_ENDIAN) True) (written f (write_long pf w n)) = Some n"
    using roundtrip_packed [of "CHR ''l''" 4 f n e pf path] assms
    by (simp add: write_long_def code_size_def code_signed_def)
  have ul: "0 \<le> n \<and> n \<le> 4294967295 \<longrightarrow>
      map_option (decode_int (e = LITTLE_ENDIAN) False) (written f (write_ulong pf w n)) = Some n"
    using roundtrip_packed [of "CHR ''L''" 4 f n e pf path] assms
    by (simp add: write_ulong_def code_size_def code_signed_def)
  from b ub s us i ui l ul show ?thesis by blast
qed

text \<open>
  The theorem at a freshly opened big-endian writer and the value 100, which lies in all
  eight ranges, on a machine whose native long has eight bytes.
\<close>

theorem numeric_write_round_trip_witness:
  "\<not> closed \<lparr>contents = [], pos = 0, closed = False\<rparr>
   \<and> open_stream (init [0x6F] BIG_ENDIAN)
       = (init [0x6F] BIG_ENDIAN)\<lparr>fp := Some \<lparr>contents = [], pos = 0, closed = False\<rparr>\<rparr>
   \<and> map_option (decode_int (BIG_ENDIAN = LITTLE_ENDIAN) True)
       (written \<lparr>contents = [], pos = 0, closed = False\<rparr>
         (write_byte \<lparr>native_long_size = 8, native_little = False\<rparr>
           (open_stream (init [0x6F] BIG_ENDIAN)) 100)) = Some 100
   \<and> map_option (decode_int (BIG_ENDIAN = LITTLE_ENDIAN) False)
       (written \<lparr>contents = [], pos = 0, closed = False\<rparr>
         (write_ubyte \<lparr>native_long_size = 8, native_little = False\<rparr>
           (open_stream (init [0x6F] BIG_ENDIAN)) 100)) = Some 100
   \<and> map_option (decode_int (BIG_ENDIAN = LITTLE_ENDIAN) True)
       (written \<lparr>contents = [], pos = 0, closed = False\<rparr>
         (write_short \<lparr>native_long_size = 8, native_little = False\<rparr>
           (open_stream (init [0x6F] BIG_ENDIAN)) 100)) = Some 100
   \<and> map_option (decode_int (BIG_ENDIAN = LITTLE_ENDIAN) False)
       (written \<lparr>contents = [], pos = 0, closed = False\<rparr>
         (write_ushort \<lparr>native_long_size = 8, native_little = False\<rparr>
           (open_stream (init [0x6F] BIG_ENDIAN)) 100)) = Some 100
   \<and> map_option (decode_int (BIG_ENDIAN = LITTLE_ENDIAN) True)
       (written \<lparr>contents = [], pos = 0, closed = False\<rparr>
         (write_int \<lparr>native_long_size = 8, native_little = False\<rparr>
           (open_stream (init [0x6F] BIG_ENDIAN)) 100)) = Some 100
   \<and> map_option (decode_int (BIG_ENDIAN = LITTLE_ENDIAN) False)
       (written \<lparr>contents = [], pos = 0, closed = False\<rparr>
         (write_uint \<lparr>native_long_size = 8, native_little = False\<rparr>
           (open_stream (init [0x6F] BIG_ENDIAN)) 100)) = Some 100
   \<and> map_option (decode_int (BIG_ENDIAN = LITTLE_ENDIAN) True)
       (written \<lparr>contents = [], pos = 0, closed = False\<rparr>
         (write_long \<lparr>native_long_size = 8, native_little = False\<rparr>
           (open_stream (init [0x6F] BIG_ENDIAN)) 100)) = Some 100
   \<and> map_option (decode_int (BIG_ENDIAN = LITTLE_ENDIAN) False)
       (written \<lparr>contents = [], pos = 0, closed = False\<rparr>
         (write_ulong \<lparr>native_long_size = 8, native_little = False\<rparr>
           (open_stream (init [0x6F] BIG_ENDIAN)) 100)) = Some 100"
proof -
  have open_f: "\<not> closed \<lparr>contents = [], pos = 0, closed = False\<rparr>"
    by simp
  have shape: "open_stream (init [0x6F] BIG_ENDIAN)
      = (init [0x6F] BIG_ENDIAN)\<lparr>fp := Some \<lparr>contents = [], pos = 0, closed = False\<rparr>\<rparr>"
    by (simp add: open_stream_def)
  show ?thesis
    using open_f shape
      numeric_write_round_trip [OF open_f shape, of 100
        "\<lparr>native_long_size = 8, native_little = False\<rparr>"]
    by simp
qed

subsection \<open>Calls after close\<close>

text \<open>
  Claim C2, as the specification states it: after \<^verbatim>\<open>close\<close> the handle is null and
  every further write or seek fails with the error of a stream that is not open. The
  method \<^verbatim>\<open>close\<close> closes the file object and leaves the attribute as it is, so the
  handle of a writer that was opened and closed is not null; and a numeric or string
  write encodes its argument before it touches the file, so an argument that does not
  encode raises the encoder's error, not the file's. The theorem evaluates the calls on a
  writer that was constructed with the path \<^verbatim>\<open>"o"\<close>, opened and closed.
\<close>

theorem close_keeps_handle_counterexample:
  "close (open_stream (init [0x6F] LITTLE_ENDIAN))
     = Inr \<lparr>output_path = [0x6F], fp = Some \<lparr>contents = [], pos = 0, closed = True\<rparr>,
            endian = ''<''\<rparr>
   \<and> fp \<lparr>output_path = [0x6F], fp = Some \<lparr>contents = [], pos = 0, closed = True\<rparr>,
          endian = ''<''\<rparr> \<noteq> None
   \<and> write_byte \<lparr>native_long_size = 8, native_little = True\<rparr>
        \<lparr>output_path = [0x6F], fp = Some \<lparr>contents = [], pos = 0, closed = True\<rparr>,
          endian = ''<''\<rparr> 1000 = Inl StructError
   \<and> write_ascii_string
        \<lparr>output_path = [0x6F], fp = Some \<lparr>contents = [], pos = 0, closed = True\<rparr>,
          endian = ''<''\<rparr> cafe = Inl UnicodeEncodeError"
  by (simp add: close_def open_stream_def init_def file_close_def LITTLE_ENDIAN_def
      write_byte_def write_packed_def pack_def pack_code_def code_size_def code_signed_def
      pack_int_def write_ascii_string_def cafe_def)

text \<open>
  Claim C2, amended. After \<^verbatim>\<open>close\<close> on a writer whose handle is set, the handle
  still refers to the file object, now closed, and every write, seek and skip fails:
  with \<^verbatim>\<open>ValueError\<close> from the closed file when the argument encodes, and with the
  encoder's error (\<^verbatim>\<open>struct.error\<close>, \<^verbatim>\<open>UnicodeEncodeError\<close>) when it does not. A seek
  whose \<^verbatim>\<open>whence\<close> does not fit a C \<^verbatim>\<open>int\<close> fails with \<^verbatim>\<open>OverflowError\<close>, raised
  when the argument is converted, before the file is looked at.
\<close>

theorem after_close_every_call_fails:
  assumes "w = (init path e)\<lparr>fp := Some f\<rparr>" and "close w = Inr w'"
  shows "fp w' = Some (f\<lparr>closed := True\<rparr>)
       \<and> write_raw w' b = Inl ValueError
       \<and> seek fs w' offset whence
           = (if whence < - (2 ^ 31) \<or> 2 ^ 31 \<le> whence then Inl OverflowError
              else Inl ValueError)
       \<and> skip fs w' offset = Inl ValueError
       \<and> write_byte pf w' n = (if - 128 \<le> n \<and> n \<le> 127 then Inl ValueError else Inl StructError)
       \<and> write_ubyte pf w' n = (if 0 \<le> n \<and> n \<le> 255 then Inl ValueError else Inl StructError)
       \<and> write_short pf w' n
           = (if - 32768 \<le> n \<and> n \<le> 32767 then Inl ValueError else Inl StructError)
       \<and> write_ushort pf w' n
           = (if 0 \<le> n \<and> n \<le> 65535 then Inl ValueError else Inl StructError)
       \<and> write_int pf w' n
           = (if - 2147483648 \<le> n \<and> n \<le> 2147483647 then Inl ValueError else Inl StructError)
       \<and> write_uint pf w' n
           = (if 0 \<le> n \<and> n \<le> 4294967295 then Inl ValueError else Inl StructError)
       \<and> write_long pf w' n
           = (if - 2147483648 \<le> n \<and> n \<le> 2147483647 then Inl ValueError else Inl StructError)
       \<and> write_ulong pf w' n
           = (if 0 \<le> n \<and> n \<le> 4294967295 then Inl ValueError else Inl StructError)
       \<and> write_ascii_string w' s
           = (if \<forall>c\<in>set s. c < 128 then Inl ValueError else Inl UnicodeEncodeError)
       \<and> write_ascii_nt_string w' s
           = (if \<forall>c\<in>set s. c < 128 then Inl ValueError else Inl UnicodeEncodeError)
       \<and> write_utf8_string w' s
           = (if isl (encode_utf8 s) then Inl UnicodeEncodeError else Inl ValueError)
       \<and> write_utf8_nt_string w' s
           = (if isl (encode_utf8 s) then Inl UnicodeEncodeError else Inl ValueError)"
proof -
  define g where "g = f\<lparr>closed := True\<rparr>"
  have w': "w' = (init path e)\<lparr>fp := Some g\<rparr>"
    using assms by (simp add: close_def file_close_def g_def)
  have g: "fp w' = Some g" "closed g" by (simp_all add: w' g_def)
  have utf8_err: "encode_utf8 t = Inl x \<Longrightarrow> x = UnicodeEncodeError" for t x
    by (induction t arbitrary: x)
      (auto simp: utf8_char_def split: sum.splits if_splits)
  have raw: "write_raw w' b = Inl ValueError"
    "seek fs w' offset whence
       = (if whence < - (2 ^ 31) \<or> 2 ^ 31 \<le> whence then Inl OverflowError else Inl ValueError)"
    "skip fs w' offset = Inl ValueError"
    by (simp_all add: write_raw_def seek_def skip_def fp_write_closed [OF g]
        fp_seek_closed [OF g] SEEK_CURRENT_def)
  have num: "write_packed pf w' c n
       = (if (if code_signed c then - (2 ^ (8 * k - 1)) else 0) \<le> n
             \<and> n < (if code_signed c then 2 ^ (8 * k - 1) else 2 ^ (8 * k))
          then Inl ValueError else Inl StructError)" if "code_size 4 c = Some k" for c k
    unfolding w' using that g(2) by (rule write_packed_closed)
  have b: "write_byte pf w' n = (if - 128 \<le> n \<and> n \<le> 127 then Inl ValueError else Inl StructError)"
    unfolding write_byte_def using num [of "CHR ''b''" 1]
    by (simp add: code_size_def code_signed_def)
  have ub: "write_ubyte pf w' n = (if 0 \<le> n \<and> n \<le> 255 then Inl ValueError else Inl StructError)"
    unfolding write_ubyte_def using num [of "CHR ''B''" 1]
    by (simp add: code_size_def code_signed_def)
  have sh: "write_short pf w' n
      = (if - 32768 \<le> n \<and> n \<le> 32767 then Inl ValueError else Inl StructError)"
    unfolding write_short_def using num [of "CHR ''h''" 2]
    by (simp add: code_size_def code_signed_def)
  have us: "write_ushort pf w' n
      = (if 0 \<le> n \<and> n \<le> 65535 then Inl ValueError else Inl StructError)"
    unfolding write_ushort_def using num [of "CHR ''H''" 2]
    by (simp add: code_size_def code_signed_def)
  have i: "write_int pf w' n
      = (if - 2147483648 \<le> n \<and> n \<le> 2147483647 then Inl ValueError else Inl StructError)"
    unfolding write_int_def using num [of "CHR ''i''" 4]
    by (simp add: code_size_def code_signed_def)
  have ui: "write_uint pf w' n
      = (if 0 \<le> n \<and> n \<le> 4294967295 then Inl ValueError else Inl StructError)"
    unfolding write_uint_def using num [of "CHR ''I''" 4]
    by (simp add: code_size_def code_signed_def)
  have l: "write_long pf w' n
      = (if - 2147483648 \<le> n \<and> n \<le> 2147483647 then Inl ValueError else Inl StructError)"
    unfolding write_long_def using num [of "CHR ''l''" 4]
    by (simp add: code_size_def code_signed_def)
  have ul: "write_ulong pf w' n
      = (if 0 \<le> n \<and> n \<le> 4294967295 then Inl ValueError else Inl StructError)"
    unfolding write_ulong_def using num [of "CHR ''L''" 4]
    by (simp add: code_size_def code_signed_def)
  have asc: "write_ascii_string w' s
           = (if \<forall>c\<in>set s. c < 128 then Inl ValueError else Inl UnicodeEncodeError)"
    "write_ascii_nt_string w' s
           = (if \<forall>c\<in>set s. c < 128 then Inl ValueError else Inl UnicodeEncodeError)"
    by (simp_all add: string_write_with_handle [OF g(1)] encode_ascii_eq
        fp_write_closed [OF g])
  have utf: "write_utf8_string w' s
           = (if isl (encode_utf8 s) then Inl UnicodeEncodeError else Inl ValueError)"
    "write_utf8_nt_string w' s
           = (if isl (encode_utf8 s) then Inl UnicodeEncodeError else Inl ValueError)"
    using utf8_err [of s]
    by (auto simp: string_write_with_handle [OF g(1)] fp_write_closed [OF g]
        split: sum.splits)
  from g(1) raw b ub sh us i ui l ul asc utf show ?thesis
    unfolding g_def by blast
qed

text \<open>The amended claim at a writer that was constructed, opened and then closed.\<close>

theorem after_close_every_call_fails_witness:
  "open_stream (init [0x6F] LITTLE_ENDIAN)
     = (init [0x6F] LITTLE_ENDIAN)\<lparr>fp := Some \<lparr>contents = [], pos = 0, closed = False\<rparr>\<rparr>
   \<and> close (open_stream (init [0x6F] LITTLE_ENDIAN))
     = Inr ((init [0x6F] LITTLE_ENDIAN)\<lparr>fp := Some \<lparr>contents = [], pos = 0, closed = True\<rparr>\<rparr>)
   \<and> write_raw ((init [0x6F] LITTLE_ENDIAN)\<lparr>fp := Some \<lparr>contents = [], pos = 0, closed = True\<rparr>\<rparr>)
       [1, 2] = Inl ValueError
   \<and> seek \<lparr>max_offset = 9223372036854775807, seek_sparse = \<lambda>f offset whence. Inl OSError\<rparr>
       ((init [0x6F] LITTLE_ENDIAN)\<lparr>fp := Some \<lparr>contents = [], pos = 0, closed = True\<rparr>\<rparr>)
       0 SEEK_BEGINNING = Inl ValueError
   \<and> seek \<lparr>max_offset = 9223372036854775807, seek_sparse = \<lambda>f offset whence. Inl OSError\<rparr>
       ((init [0x6F] LITTLE_ENDIAN)\<lparr>fp := Some \<lparr>contents = [], pos = 0, closed = True\<rparr>\<rparr>)
       0 2147483648 = Inl OverflowError
   \<and> skip \<lparr>max_offset = 9223372036854775807, seek_sparse = \<lambda>f offset whence. Inl OSError\<rparr>
       ((init [0x6F] LITTLE_ENDIAN)\<lparr>fp := Some \<lparr>contents = [], pos = 0, closed = True\<rparr>\<rparr>)
       4 = Inl ValueError"
proof -
  have shape: "open_stream (init [0x6F] LITTLE_ENDIAN)
      = (init [0x6F] LITTLE_ENDIAN)\<lparr>fp := Some \<lparr>contents = [], pos = 0, closed = False\<rparr>\<rparr>"
    by (simp add: open_stream_def)
  have closing: "close (open_stream (init [0x6F] LITTLE_ENDIAN))
      = Inr ((init [0x6F] LITTLE_ENDIAN)\<lparr>fp := Some \<lparr>contents = [], pos = 0, closed = True\<rparr>\<rparr>)"
    by (simp add: close_def open_stream_def file_close_def)
  have whence: "\<not> (SEEK_BEGINNING < - (2 ^ 31) \<or> 2 ^ 31 \<le> SEEK_BEGINNING)"
    "(2147483648 :: int) < - (2 ^ 31) \<or> 2 ^ 31 \<le> (2147483648 :: int)"
    by (simp_all add: SEEK_BEGINNING_def)
  show ?thesis
    using shape closing whence
      after_close_every_call_fails [OF shape closing,
        of _ "\<lparr>max_offset = 9223372036854775807, seek_sparse = \<lambda>f offset whence. Inl OSError\<rparr>"
          0 SEEK_BEGINNING]
      after_close_every_call_fails [OF shape closing,
        of _ "\<lparr>max_offset = 9223372036854775807, seek_sparse = \<lambda>f offset whence. Inl OSError\<rparr>"
          0 2147483648]
      after_close_every_call_fails [OF shape closing,
        of "[1, 2]" "\<lparr>max_offset = 9223372036854775807, seek_sparse = \<lambda>f offset whence. Inl OSError\<rparr>"
          4]
    by (simp only: if_True if_False simp_thms)
qed

subsection \<open>Strings\<close>


























subsection \<open>A fixed example of byte order\<close>

text \<open>
  Claim C4. On an open writer \<^verbatim>\<open>write_ushort(0x1234)\<close> writes exactly the two bytes
  \<open>0x34 0x12\<close> when the writer was constructed little-endian and exactly
  \<open>0x12 0x34\<close> when it was constructed big-endian, and returns 2.
\<close>

theorem write_ushort_0x1234:
  assumes "\<not> closed f"
  shows "written f (write_ushort pf ((init path LITTLE_ENDIAN)\<lparr>fp := Some f\<rparr>) 0x1234)
           = Some [0x34, 0x12]
       \<and> returned (write_ushort pf ((init path LITTLE_ENDIAN)\<lparr>fp := Some f\<rparr>) 0x1234) = Some 2
       \<and> written f (write_ushort pf ((init path BIG_ENDIAN)\<lparr>fp := Some f\<rparr>) 0x1234)
           = Some [0x12, 0x34]
       \<and> returned (write_ushort pf ((init path BIG_ENDIAN)\<lparr>fp := Some f\<rparr>) 0x1234) = Some 2"
proof -
  have cs: "code_size 4 (CHR ''H'') = Some 2" by (simp add: code_size_def)
  have le: "pack_int (LITTLE_ENDIAN = LITTLE_ENDIAN) 2 (code_signed (CHR ''H'')) 0x1234
      = Inr [0x34, 0x12]"
    by (simp add: pack_int_def code_signed_def int_to_bytes_le_numeral)
  have be: "pack_int (BIG_ENDIAN = LITTLE_ENDIAN) 2 (code_signed (CHR ''H'')) 0x1234
      = Inr [0x12, 0x34]"
    by (simp add: pack_int_def code_signed_def int_to_bytes_le_numeral
        LITTLE_ENDIAN_def BIG_ENDIAN_def)
  show ?thesis
    unfolding write_ushort_def
    using returned_packed_open [OF cs assms le] returned_packed_open [OF cs assms be]
    by simp
qed

text \<open>The theorem at an empty open file.\<close>

theorem write_ushort_0x1234_witness:
  "\<not> closed \<lparr>contents = [], pos = 0, closed = False\<rparr>
   \<and> written \<lparr>contents = [], pos = 0, closed = False\<rparr>
       (write_ushort \<lparr>native_long_size = 8, native_little = False\<rparr>
         ((init [0x6F] LITTLE_ENDIAN)\<lparr>fp := Some \<lparr>contents = [], pos = 0, closed = False\<rparr>\<rparr>)
         0x1234) = Some [0x34, 0x12]
   \<and> written \<lparr>contents = [], pos = 0, closed = False\<rparr>
       (write_ushort \<lparr>native_long_size = 8, native_little = False\<rparr>
         ((init [0x6F] BIG_ENDIAN)\<lparr>fp := Some \<lparr>contents = [], pos = 0, closed = False\<rparr>\<rparr>)
         0x1234) = Some [0x12, 0x34]"
proof -
  have open_f: "\<not> closed \<lparr>contents = [], pos = 0, closed = False\<rparr>"
    by simp
  show ?thesis
    using open_f
      write_ushort_0x1234 [OF open_f,
        of "\<lparr>native_long_size = 8, native_little = False\<rparr>" "[0x6F]"]
    by simp
qed

subsection \<open>The terminator of the ASCII string\<close>

text \<open>
  Claim C5. On an open writer, for every string of code points below 128,
  \<^verbatim>\<open>write_ascii_nt_string\<close> writes the bytes of the code points followed by exactly one
  zero byte, which is what \<^verbatim>\<open>write_ascii_string\<close> writes with one zero byte appended.
  On \<^verbatim>\<open>"AB"\<close> the plain write gives \<open>0x41 0x42\<close> and the terminated write
  \<open>0x41 0x42 0x00\<close>.
\<close>

theorem ascii_nt_string_terminator:
  assumes "fp w = Some f" and "\<not> closed f"
  shows "((\<forall>c\<in>set s. c < 128) \<longrightarrow>
            written f (write_ascii_string w s) = Some (map of_nat s)
          \<and> written f (write_ascii_nt_string w s) = Some (map of_nat s @ [0])
          \<and> returned (write_ascii_nt_string w s) = Some (length s + 1))
       \<and> written f (write_ascii_nt_string w s)
           = map_option (\<lambda>b. b @ [0]) (written f (write_ascii_string w s))
       \<and> written f (write_ascii_string w [0x41, 0x42]) = Some [0x41, 0x42]
       \<and> returned (write_ascii_string w [0x41, 0x42]) = Some 2
       \<and> written f (write_ascii_nt_string w [0x41, 0x42]) = Some [0x41, 0x42, 0x00]
       \<and> returned (write_ascii_nt_string w [0x41, 0x42]) = Some 3"
proof -
  have ok: "written f (write_ascii_string w t) = Some (map of_nat t)
          \<and> returned (write_ascii_string w t) = Some (length t)
          \<and> written f (write_ascii_nt_string w t) = Some (map of_nat t @ [0])
          \<and> returned (write_ascii_nt_string w t) = Some (length t + 1)"
    if "\<forall>c\<in>set t. c < 128" for t
    using that written_fp_write [OF assms] returned_fp_write_open [OF assms]
    by (simp add: string_write_with_handle [OF assms(1)] encode_ascii_eq)
  have rel: "written f (write_ascii_nt_string w s)
           = map_option (\<lambda>b. b @ [0]) (written f (write_ascii_string w s))"
  proof (cases "\<forall>c\<in>set s. c < 128")
    case True
    with ok [of s] show ?thesis by simp
  next
    case False
    then have "encode_ascii s = Inl UnicodeEncodeError"
      by (simp only: encode_ascii_eq if_False)
    then show ?thesis
      by (simp add: string_write_with_handle [OF assms(1)] written_def)
  qed
  have ab: "\<forall>c\<in>set [0x41, 0x42 :: nat]. c < 128" by simp
  from ok [of s] rel ok [OF ab] show ?thesis by simp
qed

text \<open>The theorem at a freshly opened writer and the string \<^verbatim>\<open>"hi"\<close>.\<close>

theorem ascii_nt_string_terminator_witness:
  "fp (open_stream (init [0x6F] LITTLE_ENDIAN)) = Some \<lparr>contents = [], pos = 0, closed = False\<rparr>
   \<and> \<not> closed \<lparr>contents = [], pos = 0, closed = False\<rparr>
   \<and> list_all (\<lambda>c. c < 128) [0x68, 0x69 :: nat]
   \<and> written \<lparr>contents = [], pos = 0, closed = False\<rparr>
       (write_ascii_nt_string (open_stream (init [0x6F] LITTLE_ENDIAN)) [0x68, 0x69])
       = Some (map of_nat [0x68, 0x69] @ [0])
   \<and> written \<lparr>contents = [], pos = 0, closed = False\<rparr>
       (write_ascii_nt_string (open_stream (init [0x6F] LITTLE_ENDIAN)) [0x41, 0x42])
       = Some [0x41, 0x42, 0x00]"
proof -
  have h: "fp (open_stream (init [0x6F] LITTLE_ENDIAN))
      = Some \<lparr>contents = [], pos = 0, closed = False\<rparr>"
    "\<not> closed \<lparr>contents = [], pos = 0, closed = False\<rparr>"
    by (simp_all add: open_stream_def)
  have asc: "\<forall>c\<in>set [0x68, 0x69 :: nat]. c < 128" by simp
  show ?thesis
    using h asc ascii_nt_string_terminator [OF h, of "[0x68, 0x69]"]
    by (simp add: list_all_iff)
qed

subsection \<open>The returned count\<close>

text \<open>
  Claim C6. Whenever one of the eight numeric writes succeeds, the count it returns is
  the width of its format: 1 for byte and ubyte, 2 for short and ushort, 4 for int, uint,
  long and ulong.
\<close>

theorem numeric_write_returns_width:
  assumes "w = (init path e)\<lparr>fp := fo\<rparr>"
  shows "(\<forall>k. returned (write_byte pf w n) = Some k \<longrightarrow> k = 1)
       \<and> (\<forall>k. returned (write_ubyte pf w n) = Some k \<longrightarrow> k = 1)
       \<and> (\<forall>k. returned (write_short pf w n) = Some k \<longrightarrow> k = 2)
       \<and> (\<forall>k. returned (write_ushort pf w n) = Some k \<longrightarrow> k = 2)
       \<and> (\<forall>k. returned (write_int pf w n) = Some k \<longrightarrow> k = 4)
       \<and> (\<forall>k. returned (write_uint pf w n) = Some k \<longrightarrow> k = 4)
       \<and> (\<forall>k. returned (write_long pf w n) = Some k \<longrightarrow> k = 4)
       \<and> (\<forall>k. returned (write_ulong pf w n) = Some k \<longrightarrow> k = 4)"
proof -
  have "returned (write_packed pf w c n) = Some k \<Longrightarrow> code_size 4 c = Some j \<Longrightarrow> k = j"
    for c k j
    using returned_write_packed [where c = c and k = j and j = k and path = path and e = e and fo = fo] assms
    by simp
  then show ?thesis
    unfolding numeric_write_defs by (simp add: code_size_def)
qed

text \<open>All eight writes succeed on a freshly opened writer and the value 100.\<close>

theorem numeric_write_returns_width_witness:
  "open_stream (init [0x6F] LITTLE_ENDIAN)
     = (init [0x6F] LITTLE_ENDIAN)\<lparr>fp := Some \<lparr>contents = [], pos = 0, closed = False\<rparr>\<rparr>
   \<and> returned (write_byte \<lparr>native_long_size = 8, native_little = False\<rparr>
         (open_stream (init [0x6F] LITTLE_ENDIAN)) 100) = Some 1
   \<and> returned (write_ubyte \<lparr>native_long_size = 8, native_little = False\<rparr>
         (open_stream (init [0x6F] LITTLE_ENDIAN)) 100) = Some 1
   \<and> returned (write_short \<lparr>native_long_size = 8, native_little = False\<rparr>
         (open_stream (init [0x6F] LITTLE_ENDIAN)) 100) = Some 2
   \<and> returned (write_ushort \<lparr>native_long_size = 8, native_little = False\<rparr>
         (open_stream (init [0x6F] LITTLE_ENDIAN)) 100) = Some 2
   \<and> returned (write_int \<lparr>native_long_size = 8, native_little = False\<rparr>
         (open_stream (init [0x6F] LITTLE_ENDIAN)) 100) = Some 4
   \<and> returned (write_uint \<lparr>native_long_size = 8, native_little = False\<rparr>
         (open_stream (init [0x6F] LITTLE_ENDIAN)) 100) = Some 4
   \<and> returned (write_long \<lparr>native_long_size = 8, native_little = False\<rparr>
         (open_stream (init [0x6F] LITTLE_ENDIAN)) 100) = Some 4
   \<and> returned (write_ulong \<lparr>native_long_size = 8, native_little = False\<rparr>
         (open_stream (init [0x6F] LITTLE_ENDIAN)) 100) = Some 4"
proof -
  have shape: "open_stream (init [0x6F] LITTLE_ENDIAN)
      = (init [0x6F] LITTLE_ENDIAN)\<lparr>fp := Some \<lparr>contents = [], pos = 0, closed = False\<rparr>\<rparr>"
    by (simp add: open_stream_def)
  have counts:
    "returned (write_byte \<lparr>native_long_size = 8, native_little = False\<rparr>
         (open_stream (init [0x6F] LITTLE_ENDIAN)) 100) = Some 1"
    "returned (write_ubyte \<lparr>native_long_size = 8, native_little = False\<rparr>
         (open_stream (init [0x6F] LITTLE_ENDIAN)) 100) = Some 1"
    "returned (write_short \<lparr>native_long_size = 8, native_little = False\<rparr>
         (open_stream (init [0x6F] LITTLE_ENDIAN)) 100) = Some 2"
    "returned (write_ushort \<lparr>native_long_size = 8, native_little = False\<rparr>
         (open_stream (init [0x6F] LITTLE_ENDIAN)) 100) = Some 2"
    "returned (write_int \<lparr>native_long_size = 8, native_little = False\<rparr>
         (open_stream (init [0x6F] LITTLE_ENDIAN)) 100) = Some 4"
    "returned (write_uint \<lparr>native_long_size = 8, native_little = False\<rparr>
         (open_stream (init [0x6F] LITTLE_ENDIAN)) 100) = Some 4"
    "returned (write_long \<lparr>native_long_size = 8, native_little = False\<rparr>
         (open_stream (init [0x6F] LITTLE_ENDIAN)) 100) = Some 4"
    "returned (write_ulong \<lparr>native_long_size = 8, native_little = False\<rparr>
         (open_stream (init [0x6F] LITTLE_ENDIAN)) 100) = Some 4"
    by (simp_all add: eval_defs)
  show ?thesis
    using shape counts
      numeric_write_returns_width [OF shape,
        of "\<lparr>native_long_size = 8, native_little = False\<rparr>" 100]
    by blast
qed

subsection \<open>Skip\<close>

text \<open>
  Claim C7. For every writer and every count, positive or negative, \<^verbatim>\<open>skip(count)\<close>
  is \<^verbatim>\<open>seek(count, SEEK_CURRENT)\<close>: the same result and the same writer. On an open
  writer a count outside the 64 bits of an offset raises \<^verbatim>\<open>ValueError\<close>, a count that
  would take the cursor below zero, beyond what the file system allows or beyond the 64
  bits of an offset raises \<^verbatim>\<open>OSError\<close>, and every other count moves the cursor by the count and changes nothing
  else. Whenever \<^verbatim>\<open>skip\<close> returns, the bytes of the file are what they were and the
  returned value is the new cursor: nothing is written.
\<close>

theorem skip_is_seek_from_current:
  "skip fs w count = seek fs w count SEEK_CURRENT
   \<and> (fp w = Some f \<and> \<not> closed f \<longrightarrow>
        skip fs w count =
          (if count < - (2 ^ 63) \<or> 2 ^ 63 \<le> count then Inl ValueError
           else if int (pos f) + count < 0 \<or> int (max_offset fs) < int (pos f) + count
                   \<or> 2 ^ 63 \<le> int (pos f) + count
           then Inl OSError
           else Inr (nat (int (pos f) + count),
                     w\<lparr>fp := Some (f\<lparr>pos := nat (int (pos f) + count)\<rparr>)\<rparr>)))
   \<and> (\<forall>p w'. skip fs w count = Inr (p, w') \<longrightarrow>
          map_option contents (fp w') = map_option contents (fp w)
          \<and> map_option pos (fp w') = Some p
          \<and> (\<exists>f. fp w = Some f \<and> int p = int (pos f) + count))"
proof -
  have same: "skip fs w count = seek fs w count SEEK_CURRENT"
    by (simp add: skip_def seek_def)
  have step: "skip fs w count =
          (if count < - (2 ^ 63) \<or> 2 ^ 63 \<le> count then Inl ValueError
           else if int (pos f) + count < 0 \<or> int (max_offset fs) < int (pos f) + count
                   \<or> 2 ^ 63 \<le> int (pos f) + count
           then Inl OSError
           else Inr (nat (int (pos f) + count),
                     w\<lparr>fp := Some (f\<lparr>pos := nat (int (pos f) + count)\<rparr>)\<rparr>))"
    if "fp w = Some f" "\<not> closed f" for f
    using that
    by (simp add: skip_def fp_seek_def file_seek_def SEEK_CURRENT_def Let_def)
  have quiet: "map_option contents (fp w') = map_option contents (fp w)
          \<and> map_option pos (fp w') = Some p
          \<and> (\<exists>f. fp w = Some f \<and> int p = int (pos f) + count)"
    if ok: "skip fs w count = Inr (p, w')" for p w'
  proof (cases "fp w")
    case None
    with ok show ?thesis by (simp add: skip_def fp_seek_def)
  next
    case (Some g)
    show ?thesis
    proof (cases "closed g")
      case True
      with ok Some show ?thesis
        by (simp add: skip_def fp_seek_def file_seek_def SEEK_CURRENT_def)
    next
      case False
      from ok step [OF Some False] Some show ?thesis
        by (auto split: if_splits)
    qed
  qed
  from same step quiet show ?thesis by blast
qed

text \<open>
  The theorem at a cursor of 3 and a count of -2, on a file system that allows every
  offset of 63 bits and has no sparse files.
\<close>

theorem skip_is_seek_from_current_witness:
  "fp ((init [0x6F] LITTLE_ENDIAN)\<lparr>fp := Some \<lparr>contents = [1, 2, 3], pos = 3, closed = False\<rparr>\<rparr>)
     = Some \<lparr>contents = [1, 2, 3], pos = 3, closed = False\<rparr>
   \<and> \<not> closed \<lparr>contents = [1, 2, 3], pos = 3, closed = False\<rparr>
   \<and> skip \<lparr>max_offset = 9223372036854775807, seek_sparse = \<lambda>f offset whence. Inl OSError\<rparr>
       ((init [0x6F] LITTLE_ENDIAN)\<lparr>fp := Some \<lparr>contents = [1, 2, 3], pos = 3, closed = False\<rparr>\<rparr>)
       (- 2)
     = Inr (1, (init [0x6F] LITTLE_ENDIAN)\<lparr>fp := Some \<lparr>contents = [1, 2, 3], pos = 1, closed = False\<rparr>\<rparr>)
   \<and> seek \<lparr>max_offset = 9223372036854775807, seek_sparse = \<lambda>f offset whence. Inl OSError\<rparr>
       ((init [0x6F] LITTLE_ENDIAN)\<lparr>fp := Some \<lparr>contents = [1, 2, 3], pos = 3, closed = False\<rparr>\<rparr>)
       (- 2) SEEK_CURRENT
     = Inr (1, (init [0x6F] LITTLE_ENDIAN)\<lparr>fp := Some \<lparr>contents = [1, 2, 3], pos = 1, closed = False\<rparr>\<rparr>)
   \<and> map_option contents
       (fp ((init [0x6F] LITTLE_ENDIAN)\<lparr>fp := Some \<lparr>contents = [1, 2, 3], pos = 1, closed = False\<rparr>\<rparr>))
     = Some [1, 2, 3]"
proof -
  let ?fs = "\<lparr>max_offset = 9223372036854775807, seek_sparse = \<lambda>f offset whence. Inl OSError\<rparr>"
  let ?f = "\<lparr>contents = [1, 2, 3], pos = 3, closed = False\<rparr>"
  let ?w = "(init [0x6F] LITTLE_ENDIAN)\<lparr>fp := Some ?f\<rparr>"
  have h: "fp ?w = Some ?f \<and> \<not> closed ?f" by simp
  from skip_is_seek_from_current [of ?fs ?w "- 2" ?f] h
  have same: "skip ?fs ?w (- 2) = seek ?fs ?w (- 2) SEEK_CURRENT"
    and step: "skip ?fs ?w (- 2) =
          (if (- 2 :: int) < - (2 ^ 63) \<or> 2 ^ 63 \<le> (- 2 :: int) then Inl ValueError
           else if int (pos ?f) + (- 2) < 0 \<or> int (max_offset ?fs) < int (pos ?f) + (- 2)
                   \<or> 2 ^ 63 \<le> int (pos ?f) + (- 2)
           then Inl OSError
           else Inr (nat (int (pos ?f) + (- 2)),
                     ?w\<lparr>fp := Some (?f\<lparr>pos := nat (int (pos ?f) + (- 2))\<rparr>)\<rparr>))"
    by blast+
  have "skip ?fs ?w (- 2) = Inr (1, (init [0x6F] LITTLE_ENDIAN)\<lparr>fp := Some (?f\<lparr>pos := 1\<rparr>)\<rparr>)"
    unfolding step by simp
  with same h show ?thesis by simp
qed

text \<open>
  The ends of the ranges: a count of \<open>2 ^ 63\<close> is refused for its width, and a count
  that fits but takes the cursor past the file system's limit is refused by the
  operating system.
\<close>

lemma skip_out_of_range:
  "skip \<lparr>max_offset = 9223372036854775807, seek_sparse = \<lambda>f offset whence. Inl OSError\<rparr>
     ((init [0x6F] LITTLE_ENDIAN)\<lparr>fp := Some \<lparr>contents = [1, 2, 3], pos = 3, closed = False\<rparr>\<rparr>)
     9223372036854775808 = Inl ValueError
   \<and> skip \<lparr>max_offset = 9223372036854775807, seek_sparse = \<lambda>f offset whence. Inl OSError\<rparr>
     ((init [0x6F] LITTLE_ENDIAN)\<lparr>fp := Some \<lparr>contents = [1, 2, 3], pos = 3, closed = False\<rparr>\<rparr>)
     9223372036854775807 = Inl OSError
   \<and> skip \<lparr>max_offset = 9223372036854775807, seek_sparse = \<lambda>f offset whence. Inl OSError\<rparr>
     ((init [0x6F] LITTLE_ENDIAN)\<lparr>fp := Some \<lparr>contents = [1, 2, 3], pos = 3, closed = False\<rparr>\<rparr>)
     (- 4) = Inl OSError"
  by (simp add: skip_def fp_seek_def file_seek_def SEEK_CURRENT_def)

subsection \<open>Single bytes and byte order\<close>

text \<open>
  Claim C8. For \<^verbatim>\<open>write_byte\<close> and \<^verbatim>\<open>write_ubyte\<close> the outcome of a call (the error,
  or the returned count and the file with the bytes written) is the same whatever the
  byte order the writer was constructed with, for every value, in range or not.
\<close>

theorem single_byte_endian_irrelevant:
  "outcome (write_byte pf ((init path e1)\<lparr>fp := fo\<rparr>) n)
     = outcome (write_byte pf ((init path e2)\<lparr>fp := fo\<rparr>) n)
   \<and> outcome (write_ubyte pf ((init path e1)\<lparr>fp := fo\<rparr>) n)
     = outcome (write_ubyte pf ((init path e2)\<lparr>fp := fo\<rparr>) n)"
  unfolding write_byte_def write_ubyte_def
  using outcome_packed_one_byte [where c = "CHR ''b''" and ?e1.0 = e1 and ?e2.0 = e2]
    outcome_packed_one_byte [where c = "CHR ''B''" and ?e1.0 = e1 and ?e2.0 = e2]
  by (simp add: code_size_def)

subsection \<open>The width of long\<close>

text \<open>
  Claim C9. \<^verbatim>\<open>write_long\<close> and \<^verbatim>\<open>write_ulong\<close> do not depend on the machine: the
  format always starts with \<^verbatim>\<open><\<close> or \<^verbatim>\<open>></\<close>, which selects the standard size of
  four bytes and not the native size of long. A successful call returns 4, and on an open
  writer every value of the 32-bit range is written as exactly four bytes.
\<close>

theorem long_writes_four_bytes:
  assumes "w = (init path e)\<lparr>fp := fo\<rparr>"
  shows "write_long pf w n = write_long pf' w n
       \<and> write_ulong pf w n = write_ulong pf' w n
       \<and> (\<forall>k. returned (write_long pf w n) = Some k \<longrightarrow> k = 4)
       \<and> (\<forall>k. returned (write_ulong pf w n) = Some k \<longrightarrow> k = 4)
       \<and> (\<forall>f. fo = Some f \<and> \<not> closed f \<and> - 2147483648 \<le> n \<and> n \<le> 2147483647 \<longrightarrow>
             map_option length (written f (write_long pf w n)) = Some 4
             \<and> returned (write_long pf w n) = Some 4)
       \<and> (\<forall>f. fo = Some f \<and> \<not> closed f \<and> 0 \<le> n \<and> n \<le> 4294967295 \<longrightarrow>
             map_option length (written f (write_ulong pf w n)) = Some 4
             \<and> returned (write_ulong pf w n) = Some 4)"
proof -
  have l: "code_size 4 (CHR ''l'') = Some 4" and ul: "code_size 4 (CHR ''L'') = Some 4"
    by (simp_all add: code_size_def)
  have indep: "write_long pf w n = write_long pf' w n" "write_ulong pf w n = write_ulong pf' w n"
    unfolding write_long_def write_ulong_def assms by (rule write_packed_platform)+
  have count: "\<forall>k. returned (write_long pf w n) = Some k \<longrightarrow> k = 4"
    "\<forall>k. returned (write_ulong pf w n) = Some k \<longrightarrow> k = 4"
    unfolding write_long_def write_ulong_def assms
    using returned_write_packed [OF l] returned_write_packed [OF ul] by blast+
  have sgn: "map_option length (written f (write_long pf w n)) = Some 4
      \<and> returned (write_long pf w n) = Some 4"
    if "fo = Some f" "\<not> closed f" "- 2147483648 \<le> n" "n \<le> 2147483647" for f
  proof -
    from that(3,4) obtain bs
      where bs: "pack_int (e = LITTLE_ENDIAN) 4 (code_signed (CHR ''l'')) n = Inr bs"
      using pack_int_in_range [of "code_signed (CHR ''l'')" 4 n "e = LITTLE_ENDIAN"]
      by (auto simp: code_signed_def)
    show ?thesis
      unfolding write_long_def assms that(1)
      using returned_packed_open [OF l that(2) bs] pack_int_length [OF bs] by simp
  qed
  have uns: "map_option length (written f (write_ulong pf w n)) = Some 4
      \<and> returned (write_ulong pf w n) = Some 4"
    if "fo = Some f" "\<not> closed f" "0 \<le> n" "n \<le> 4294967295" for f
  proof -
    from that(3,4) obtain bs
      where bs: "pack_int (e = LITTLE_ENDIAN) 4 (code_signed (CHR ''L'')) n = Inr bs"
      using pack_int_in_range [of "code_signed (CHR ''L'')" 4 n "e = LITTLE_ENDIAN"]
      by (auto simp: code_signed_def)
    show ?thesis
      unfolding write_ulong_def assms that(1)
      using returned_packed_open [OF ul that(2) bs] pack_int_length [OF bs] by simp
  qed
  from indep count sgn uns show ?thesis by blast
qed

text \<open>
  The theorem on a machine whose native long has eight bytes, against one where it has
  four.
\<close>

theorem long_writes_four_bytes_witness:
  "open_stream (init [0x6F] LITTLE_ENDIAN)
     = (init [0x6F] LITTLE_ENDIAN)\<lparr>fp := Some \<lparr>contents = [], pos = 0, closed = False\<rparr>\<rparr>
   \<and> \<not> closed \<lparr>contents = [], pos = 0, closed = False\<rparr>
   \<and> returned (write_long \<lparr>native_long_size = 8, native_little = False\<rparr>
         (open_stream (init [0x6F] LITTLE_ENDIAN)) 100) = Some 4
   \<and> returned (write_ulong \<lparr>native_long_size = 8, native_little = False\<rparr>
         (open_stream (init [0x6F] LITTLE_ENDIAN)) 100) = Some 4
   \<and> map_option length (written \<lparr>contents = [], pos = 0, closed = False\<rparr>
         (write_long \<lparr>native_long_size = 8, native_little = False\<rparr>
           (open_stream (init [0x6F] LITTLE_ENDIAN)) 100)) = Some 4
   \<and> map_option length (written \<lparr>contents = [], pos = 0, closed = False\<rparr>
         (write_ulong \<lparr>native_long_size = 8, native_little = False\<rparr>
           (open_stream (init [0x6F] LITTLE_ENDIAN)) 100)) = Some 4
   \<and> write_long \<lparr>native_long_size = 8, native_little = False\<rparr>
         (open_stream (init [0x6F] LITTLE_ENDIAN)) 100
       = write_long \<lparr>native_long_size = 4, native_little = True\<rparr>
         (open_stream (init [0x6F] LITTLE_ENDIAN)) 100"
proof -
  have shape: "open_stream (init [0x6F] LITTLE_ENDIAN)
      = (init [0x6F] LITTLE_ENDIAN)\<lparr>fp := Some \<lparr>contents = [], pos = 0, closed = False\<rparr>\<rparr>"
    by (simp add: open_stream_def)
  have open_f: "\<not> closed \<lparr>contents = [], pos = 0, closed = False\<rparr>"
    by simp
  have rng: "- 2147483648 \<le> (100::int) \<and> (100::int) \<le> 2147483647"
    "0 \<le> (100::int) \<and> (100::int) \<le> 4294967295"
    by simp_all
  show ?thesis
    using shape open_f rng
      long_writes_four_bytes [OF shape,
        of "\<lparr>native_long_size = 8, native_little = False\<rparr>" 100
           "\<lparr>native_long_size = 4, native_little = True\<rparr>"]
    by blast
qed

subsection \<open>The byte order chosen at construction\<close>

text \<open>
  Claim C10. The constructor compares its argument with \<open>LITTLE_ENDIAN\<close> and checks
  nothing else: with any other value it builds the very writer that \<open>BIG_ENDIAN\<close>
  gives, whose format prefix is \<^verbatim>\<open>></\<close>, so each multi-byte write puts into the file
  the bytes a little-endian writer would put there, in reverse order.
\<close>

theorem nonzero_endian_is_big:
  assumes "e \<noteq> LITTLE_ENDIAN"
  shows "init path e = init path BIG_ENDIAN
       \<and> endian (init path e) = ''>''
       \<and> written f (write_short pf ((init path e)\<lparr>fp := Some f\<rparr>) n)
           = map_option rev (written f (write_short pf ((init path LITTLE_ENDIAN)\<lparr>fp := Some f\<rparr>) n))
       \<and> written f (write_ushort pf ((init path e)\<lparr>fp := Some f\<rparr>) n)
           = map_option rev (written f (write_ushort pf ((init path LITTLE_ENDIAN)\<lparr>fp := Some f\<rparr>) n))
       \<and> written f (write_int pf ((init path e)\<lparr>fp := Some f\<rparr>) n)
           = map_option rev (written f (write_int pf ((init path LITTLE_ENDIAN)\<lparr>fp := Some f\<rparr>) n))
       \<and> written f (write_uint pf ((init path e)\<lparr>fp := Some f\<rparr>) n)
           = map_option rev (written f (write_uint pf ((init path LITTLE_ENDIAN)\<lparr>fp := Some f\<rparr>) n))
       \<and> written f (write_long pf ((init path e)\<lparr>fp := Some f\<rparr>) n)
           = map_option rev (written f (write_long pf ((init path LITTLE_ENDIAN)\<lparr>fp := Some f\<rparr>) n))
       \<and> written f (write_ulong pf ((init path e)\<lparr>fp := Some f\<rparr>) n)
           = map_option rev (written f (write_ulong pf ((init path LITTLE_ENDIAN)\<lparr>fp := Some f\<rparr>) n))"
proof -
  have "init path e = init path BIG_ENDIAN" "endian (init path e) = ''>''"
    using assms by (simp_all add: init_def BIG_ENDIAN_def LITTLE_ENDIAN_def)
  moreover have "written f (write_packed pf ((init path e)\<lparr>fp := Some f\<rparr>) c n)
       = map_option rev (written f (write_packed pf ((init path LITTLE_ENDIAN)\<lparr>fp := Some f\<rparr>) c n))"
    if "c \<in> set ''hHiIlL''" for c
  proof -
    from that obtain k where "code_size 4 c = Some k" by (auto simp: code_size_def)
    then show ?thesis using assms by (rule written_packed_rev)
  qed
  ultimately show ?thesis
    unfolding numeric_write_defs by simp
qed

text \<open>The theorem at the argument 7.\<close>

theorem nonzero_endian_is_big_witness:
  "(7::int) \<noteq> LITTLE_ENDIAN
   \<and> init [0x6F] 7 = init [0x6F] BIG_ENDIAN
   \<and> endian (init [0x6F] 7) = ''>''
   \<and> written \<lparr>contents = [], pos = 0, closed = False\<rparr>
       (write_ushort \<lparr>native_long_size = 8, native_little = True\<rparr>
         ((init [0x6F] 7)\<lparr>fp := Some \<lparr>contents = [], pos = 0, closed = False\<rparr>\<rparr>) 0x1234)
     = map_option rev (written \<lparr>contents = [], pos = 0, closed = False\<rparr>
       (write_ushort \<lparr>native_long_size = 8, native_little = True\<rparr>
         ((init [0x6F] LITTLE_ENDIAN)\<lparr>fp := Some \<lparr>contents = [], pos = 0, closed = False\<rparr>\<rparr>)
         0x1234))"
proof -
  have ne: "(7::int) \<noteq> LITTLE_ENDIAN" by (simp add: LITTLE_ENDIAN_def)
  show ?thesis
    using ne nonzero_endian_is_big [OF ne, of "[0x6F]" "\<lparr>contents = [], pos = 0, closed = False\<rparr>"
        "\<lparr>native_long_size = 8, native_little = True\<rparr>" "0x1234"]
    by blast
qed

end
